theory Spec2Isabelle
  imports Main "HOL-Library.Word"
begin

unbundle bit_operations_syntax

section \<open>Data model\<close>

text \<open>
  The repository has two Python files. \<^verbatim>\<open>key_generate.py\<close> derives a cipher key from a
  passphrase; \<^verbatim>\<open>main.py\<close> wraps the Fernet cipher and the image library behind a small user
  interface. A Python \<^verbatim>\<open>bytes\<close> object is a list of 8-bit words. A Python \<^verbatim>\<open>str\<close> is a
  sequence of Unicode code points; it is modelled as a list of natural numbers, the code
  points. Python only builds strings whose code points are below \<open>0x110000\<close> (predicate
  \<open>is_str\<close>); surrogate code points \<open>0xD800\<close> to \<open>0xDFFF\<close> are legal members of a
  \<^verbatim>\<open>str\<close>. The statements below are proved for all lists of code points, so for all
  strings. Texts shown by the user interface, exception messages and image format tags
  are ASCII and are written as HOL strings.
\<close>

type_synonym byte = "8 word"
type_synonym bytes = "byte list"
type_synonym u32 = "32 word"
type_synonym pystr = "nat list"

definition is_str :: "pystr \<Rightarrow> bool" where
  "is_str s = list_all (\<lambda>c. c < 0x110000) s"

text \<open>
  Exceptions are values. Only the classes that the modelled code can raise are listed;
  \<open>LibraryError\<close> stands for any exception of the image library, with its message.
  \<open>exn_str\<close> is what \<^verbatim>\<open>f"{e}"\<close> prints; for the Unicode and base64 errors it is
  shortened to the reason, without the position or count that Python adds.
\<close>

datatype exn =
    UnicodeEncodeError
  | UnicodeDecodeError
  | BinasciiError
  | ValueError string
  | InvalidToken
  | LibraryError string

fun exn_str :: "exn \<Rightarrow> string" where
  "exn_str UnicodeEncodeError = ''surrogates not allowed''"
| "exn_str UnicodeDecodeError = ''invalid utf-8''"
| "exn_str BinasciiError = ''Incorrect padding''"
| "exn_str (ValueError m) = m"
| "exn_str InvalidToken = []"
| "exn_str (LibraryError m) = m"

section \<open>UTF-8: \<^verbatim>\<open>str.encode('utf-8')\<close> and \<^verbatim>\<open>bytes.decode('utf-8')\<close>\<close>

text \<open>
  The strict codec of Python: a surrogate code point has no encoding and raises
  \<^verbatim>\<open>UnicodeEncodeError\<close>; every other code point takes one to four bytes.
\<close>

definition is_surrogate :: "nat \<Rightarrow> bool" where
  "is_surrogate c = (0xD800 \<le> c \<and> c \<le> 0xDFFF)"

definition utf8_encode_cp :: "nat \<Rightarrow> exn + bytes" where
  "utf8_encode_cp c =
     (if c < 0x80 then Inr [of_nat c]
      else if c < 0x800 then Inr [of_nat (0xC0 + c div 64), of_nat (0x80 + c mod 64)]
      else if c < 0x10000 then
        (if is_surrogate c then Inl UnicodeEncodeError
         else Inr [of_nat (0xE0 + c div 4096), of_nat (0x80 + (c div 64) mod 64),
                   of_nat (0x80 + c mod 64)])
      else Inr [of_nat (0xF0 + c div 262144), of_nat (0x80 + (c div 4096) mod 64),
                of_nat (0x80 + (c div 64) mod 64), of_nat (0x80 + c mod 64)])"

fun str_encode :: "pystr \<Rightarrow> exn + bytes" where
  "str_encode [] = Inr []"
| "str_encode (c # cs) =
     (case utf8_encode_cp c of
        Inl e \<Rightarrow> Inl e
      | Inr bs \<Rightarrow> (case str_encode cs of Inl e \<Rightarrow> Inl e | Inr rest \<Rightarrow> Inr (bs @ rest)))"

text \<open>
  Decoding reads a lead byte, which fixes the number of continuation bytes and the range
  allowed for the first of them (this range excludes overlong forms, surrogates and values
  above \<open>0x10FFFF\<close>), then the continuation bytes.
\<close>

definition utf8_lead :: "nat \<Rightarrow> (nat \<times> nat \<times> nat \<times> nat) option" where
  "utf8_lead n =
     (if n < 0x80 then Some (0, n, 0x80, 0xBF)
      else if 0xC2 \<le> n \<and> n \<le> 0xDF then Some (1, n mod 32, 0x80, 0xBF)
      else if n = 0xE0 then Some (2, 0, 0xA0, 0xBF)
      else if n = 0xED then Some (2, 13, 0x80, 0x9F)
      else if 0xE1 \<le> n \<and> n \<le> 0xEF then Some (2, n mod 16, 0x80, 0xBF)
      else if n = 0xF0 then Some (3, 0, 0x90, 0xBF)
      else if 0xF1 \<le> n \<and> n \<le> 0xF3 then Some (3, n mod 8, 0x80, 0xBF)
      else if n = 0xF4 then Some (3, 4, 0x80, 0x8F)
      else None)"

definition is_cont :: "byte \<Rightarrow> bool" where
  "is_cont b = (0x80 \<le> unat b \<and> unat b \<le> 0xBF)"

fun bytes_decode :: "bytes \<Rightarrow> exn + pystr" where
  "bytes_decode [] = Inr []"
| "bytes_decode (b # bs) =
     (case utf8_lead (unat b) of
        None \<Rightarrow> Inl UnicodeDecodeError
      | Some (k, hi_bits, lo, hi) \<Rightarrow>
          (let cont = take k bs in
           if length cont = k
              \<and> (k = 0 \<or> (lo \<le> unat (hd cont) \<and> unat (hd cont) \<le> hi))
              \<and> list_all is_cont cont
           then (case bytes_decode (drop k bs) of
                   Inl e \<Rightarrow> Inl e
                 | Inr rest \<Rightarrow>
                     Inr (foldl (\<lambda>acc c. acc * 64 + unat c mod 64) hi_bits cont # rest))
           else Inl UnicodeDecodeError))"

section \<open>SHA-256: \<^verbatim>\<open>hashlib.sha256(data).digest()\<close>\<close>

text \<open>
  The hash of FIPS 180-4 on 32-bit words: the message is padded to a multiple of 64 bytes,
  cut into blocks, and each block is compressed into the running state of eight words. The
  digest is the final state, big-endian.
\<close>

definition rotr :: "nat \<Rightarrow> u32 \<Rightarrow> u32" where
  "rotr n x = drop_bit n x OR push_bit (32 - n) x"

definition Ch :: "u32 \<Rightarrow> u32 \<Rightarrow> u32 \<Rightarrow> u32" where
  "Ch x y z = (x AND y) XOR (NOT x AND z)"

definition Maj :: "u32 \<Rightarrow> u32 \<Rightarrow> u32 \<Rightarrow> u32" where
  "Maj x y z = (x AND y) XOR (x AND z) XOR (y AND z)"

definition Sigma0 :: "u32 \<Rightarrow> u32" where
  "Sigma0 x = rotr 2 x XOR rotr 13 x XOR rotr 22 x"

definition Sigma1 :: "u32 \<Rightarrow> u32" where
  "Sigma1 x = rotr 6 x XOR rotr 11 x XOR rotr 25 x"

definition sigma0 :: "u32 \<Rightarrow> u32" where
  "sigma0 x = rotr 7 x XOR rotr 18 x XOR drop_bit 3 x"

definition sigma1 :: "u32 \<Rightarrow> u32" where
  "sigma1 x = rotr 17 x XOR rotr 19 x XOR drop_bit 10 x"

definition K256 :: "u32 list" where
  "K256 =
   [0x428A2F98, 0x71374491, 0xB5C0FBCF, 0xE9B5DBA5, 0x3956C25B, 0x59F111F1, 0x923F82A4, 0xAB1C5ED5,
    0xD807AA98, 0x12835B01, 0x243185BE, 0x550C7DC3, 0x72BE5D74, 0x80DEB1FE, 0x9BDC06A7, 0xC19BF174,
    0xE49B69C1, 0xEFBE4786, 0x0FC19DC6, 0x240CA1CC, 0x2DE92C6F, 0x4A7484AA, 0x5CB0A9DC, 0x76F988DA,
    0x983E5152, 0xA831C66D, 0xB00327C8, 0xBF597FC7, 0xC6E00BF3, 0xD5A79147, 0x06CA6351, 0x14292967,
    0x27B70A85, 0x2E1B2138, 0x4D2C6DFC, 0x53380D13, 0x650A7354, 0x766A0ABB, 0x81C2C92E, 0x92722C85,
    0xA2BFE8A1, 0xA81A664B, 0xC24B8B70, 0xC76C51A3, 0xD192E819, 0xD6990624, 0xF40E3585, 0x106AA070,
    0x19A4C116, 0x1E376C08, 0x2748774C, 0x34B0BCB5, 0x391C0CB3, 0x4ED8AA4A, 0x5B9CCA4F, 0x682E6FF3,
    0x748F82EE, 0x78A5636F, 0x84C87814, 0x8CC70208, 0x90BEFFFA, 0xA4506CEB, 0xBEF9A3F7, 0xC67178F2]"

record sha_state =
  ha :: u32
  hb :: u32
  hc :: u32
  hd4 :: u32
  he :: u32
  hf :: u32
  hg :: u32
  hh :: u32

definition H256_init :: sha_state where
  "H256_init = \<lparr>ha = 0x6A09E667, hb = 0xBB67AE85, hc = 0x3C6EF372, hd4 = 0xA54FF53A,
                he = 0x510E527F, hf = 0x9B05688C, hg = 0x1F83D9AB, hh = 0x5BE0CD19\<rparr>"

definition be32 :: "byte \<Rightarrow> byte \<Rightarrow> byte \<Rightarrow> byte \<Rightarrow> u32" where
  "be32 a b c d = push_bit 24 (ucast a) OR push_bit 16 (ucast b) OR push_bit 8 (ucast c) OR ucast d"

fun be_words :: "bytes \<Rightarrow> u32 list" where
  "be_words (a # b # c # d # rest) = be32 a b c d # be_words rest"
| "be_words _ = []"

definition u32_bytes :: "u32 \<Rightarrow> bytes" where
  "u32_bytes w = [ucast (drop_bit 24 w), ucast (drop_bit 16 w), ucast (drop_bit 8 w), ucast w]"

definition u64_bytes :: "64 word \<Rightarrow> bytes" where
  "u64_bytes w = map (\<lambda>i. ucast (drop_bit (8 * i) w)) [7, 6, 5, 4, 3, 2, 1, 0]"

definition sha256_pad :: "bytes \<Rightarrow> bytes" where
  "sha256_pad m =
     m @ [0x80] @ replicate ((64 - (length m + 9) mod 64) mod 64) 0
       @ u64_bytes (word_of_nat (8 * length m))"

fun blocks64 :: "bytes \<Rightarrow> bytes list" where
  "blocks64 [] = []"
| "blocks64 (x # xs) = take 64 (x # xs) # blocks64 (drop 64 (x # xs))"

fun schedule :: "nat \<Rightarrow> u32 list \<Rightarrow> u32 list" where
  "schedule 0 w = w"
| "schedule (Suc n) w =
     schedule n (w @ [sigma1 (w ! (length w - 2)) + w ! (length w - 7)
                      + sigma0 (w ! (length w - 15)) + w ! (length w - 16)])"

definition round256 :: "sha_state \<Rightarrow> u32 \<times> u32 \<Rightarrow> sha_state" where
  "round256 s kw =
     (let t1 = hh s + Sigma1 (he s) + Ch (he s) (hf s) (hg s) + fst kw + snd kw;
          t2 = Sigma0 (ha s) + Maj (ha s) (hb s) (hc s)
      in \<lparr>ha = t1 + t2, hb = ha s, hc = hb s, hd4 = hc s,
          he = hd4 s + t1, hf = he s, hg = hf s, hh = hg s\<rparr>)"

definition compress :: "sha_state \<Rightarrow> bytes \<Rightarrow> sha_state" where
  "compress h blk =
     (let s = foldl round256 h (zip K256 (schedule 48 (be_words blk)))
      in \<lparr>ha = ha h + ha s, hb = hb h + hb s, hc = hc h + hc s, hd4 = hd4 h + hd4 s,
          he = he h + he s, hf = hf h + hf s, hg = hg h + hg s, hh = hh h + hh s\<rparr>)"

definition sha256 :: "bytes \<Rightarrow> bytes" where
  "sha256 m =
     (let h = foldl compress H256_init (blocks64 (sha256_pad m))
      in u32_bytes (ha h) @ u32_bytes (hb h) @ u32_bytes (hc h) @ u32_bytes (hd4 h)
         @ u32_bytes (he h) @ u32_bytes (hf h) @ u32_bytes (hg h) @ u32_bytes (hh h))"



section \<open>Base64: \<^verbatim>\<open>base64.urlsafe_b64encode\<close> and \<^verbatim>\<open>base64.urlsafe_b64decode\<close>\<close>

text \<open>
  Python's \<^verbatim>\<open>urlsafe_b64encode(s)\<close> is \<^verbatim>\<open>b64encode(s).translate(t)\<close>, where \<^verbatim>\<open>t\<close> maps
  \<^verbatim>\<open>+\<close> to \<^verbatim>\<open>-\<close> and \<^verbatim>\<open>/\<close> to \<^verbatim>\<open>_\<close>: the standard encoding first, the substitution after.
  Three bytes give four 6-bit values, each looked up in the alphabet; a last group of one
  or two bytes is filled up with zero bits and marked with \<^verbatim>\<open>=\<close>.
\<close>

definition ascii :: "string \<Rightarrow> bytes" where
  "ascii s = map of_char s"

definition table_b2a_base64 :: bytes where
  "table_b2a_base64 =
     ascii ''ABCDEFGHIJKLMNOPQRSTUVWXYZabcdefghijklmnopqrstuvwxyz0123456789+/''"

definition BASE64_PAD :: byte where
  "BASE64_PAD = 0x3D"

definition sextet1 :: "byte \<Rightarrow> byte" where
  "sextet1 x = drop_bit 2 x"

definition sextet2 :: "byte \<Rightarrow> byte \<Rightarrow> byte" where
  "sextet2 x y = push_bit 4 (x AND 3) OR drop_bit 4 y"

definition sextet3 :: "byte \<Rightarrow> byte \<Rightarrow> byte" where
  "sextet3 y z = push_bit 2 (y AND 15) OR drop_bit 6 z"

definition sextet4 :: "byte \<Rightarrow> byte" where
  "sextet4 z = z AND 63"

fun b2a_base64 :: "bytes \<Rightarrow> bytes \<Rightarrow> bytes" where
  "b2a_base64 tab (x # y # z # rest) =
     [tab ! unat (sextet1 x), tab ! unat (sextet2 x y),
      tab ! unat (sextet3 y z), tab ! unat (sextet4 z)] @ b2a_base64 tab rest"
| "b2a_base64 tab [x, y] =
     [tab ! unat (sextet1 x), tab ! unat (sextet2 x y), tab ! unat (sextet3 y 0), BASE64_PAD]"
| "b2a_base64 tab [x] =
     [tab ! unat (sextet1 x), tab ! unat (sextet2 x 0), BASE64_PAD, BASE64_PAD]"
| "b2a_base64 tab [] = []"

definition b64encode :: "bytes \<Rightarrow> bytes" where
  "b64encode s = b2a_base64 table_b2a_base64 s"

text \<open>\<^verbatim>\<open>bytes.translate\<close> with the table \<^verbatim>\<open>bytes.maketrans(src, dst)\<close>.\<close>

fun maketrans :: "bytes \<Rightarrow> bytes \<Rightarrow> byte \<Rightarrow> byte" where
  "maketrans (a # as) (b # bs) c = (if c = a then b else maketrans as bs c)"
| "maketrans _ _ c = c"

definition urlsafe_encode_translation :: "byte \<Rightarrow> byte" where
  "urlsafe_encode_translation = maketrans (ascii ''+/'') (ascii ''-_'')"

definition urlsafe_decode_translation :: "byte \<Rightarrow> byte" where
  "urlsafe_decode_translation = maketrans (ascii ''-_'') (ascii ''+/'')"

definition urlsafe_b64encode :: "bytes \<Rightarrow> bytes" where
  "urlsafe_b64encode s = map urlsafe_encode_translation (b64encode s)"

text \<open>
  The encoding as the specification words it: the bytes are encoded directly with the
  URL-safe alphabet, which has \<^verbatim>\<open>-\<close> and \<^verbatim>\<open>_\<close> where the standard one has \<^verbatim>\<open>+\<close> and
  \<^verbatim>\<open>/\<close>, and the padding is kept.
\<close>

definition urlsafe_alphabet :: bytes where
  "urlsafe_alphabet =
     ascii ''ABCDEFGHIJKLMNOPQRSTUVWXYZabcdefghijklmnopqrstuvwxyz0123456789-_''"

definition spec_urlsafe_base64 :: "bytes \<Rightarrow> bytes" where
  "spec_urlsafe_base64 s = b2a_base64 urlsafe_alphabet s"

text \<open>
  Decoding is \<^verbatim>\<open>binascii.a2b_base64\<close> in its default, lenient mode, after the reverse
  substitution. The loop keeps the position in the current group of four
  (\<open>quad_pos\<close>), the bits left over from the previous character (\<open>leftchar\<close>) and the
  number of padding characters seen (\<open>pads\<close>). Characters outside the alphabet are
  skipped; a padding character that completes a group ends the decoding; input that ends
  inside a group raises \<^verbatim>\<open>binascii.Error\<close>.
\<close>

definition table_a2b_base64 :: "byte \<Rightarrow> byte option" where
  "table_a2b_base64 c =
     (if 0x41 \<le> c \<and> c \<le> 0x5A then Some (c - 0x41)
      else if 0x61 \<le> c \<and> c \<le> 0x7A then Some (c - 0x61 + 26)
      else if 0x30 \<le> c \<and> c \<le> 0x39 then Some (c - 0x30 + 52)
      else if c = 0x2B then Some 62
      else if c = 0x2F then Some 63
      else None)"

fun a2b_loop :: "nat \<Rightarrow> byte \<Rightarrow> nat \<Rightarrow> bytes \<Rightarrow> bytes \<Rightarrow> exn + bytes" where
  "a2b_loop quad_pos leftchar pads bin_data [] =
     (if quad_pos \<noteq> 0 then Inl BinasciiError else Inr bin_data)"
| "a2b_loop quad_pos leftchar pads bin_data (c # rest) =
     (if c = BASE64_PAD then
        (if quad_pos \<ge> 2 \<and> quad_pos + (pads + 1) \<ge> 4 then Inr bin_data
         else a2b_loop quad_pos leftchar (if quad_pos \<ge> 2 then pads + 1 else pads)
                bin_data rest)
      else
        (case table_a2b_base64 c of
           None \<Rightarrow> a2b_loop quad_pos leftchar pads bin_data rest
         | Some this_ch \<Rightarrow>
             (if quad_pos = 0 then a2b_loop 1 this_ch 0 bin_data rest
              else if quad_pos = 1 then
                a2b_loop 2 (this_ch AND 0x0f) 0
                  (bin_data @ [push_bit 2 leftchar OR drop_bit 4 this_ch]) rest
              else if quad_pos = 2 then
                a2b_loop 3 (this_ch AND 0x03) 0
                  (bin_data @ [push_bit 4 leftchar OR drop_bit 2 this_ch]) rest
              else
                a2b_loop 0 0 0 (bin_data @ [push_bit 6 leftchar OR this_ch]) rest)))"

definition a2b_base64 :: "bytes \<Rightarrow> exn + bytes" where
  "a2b_base64 s = a2b_loop 0 0 0 [] s"

definition urlsafe_b64decode :: "bytes \<Rightarrow> exn + bytes" where
  "urlsafe_b64decode s = a2b_base64 (map urlsafe_decode_translation s)"

section \<open>Key derivation: \<^verbatim>\<open>key_generate.py\<close>\<close>

text \<open>
  The argument is a \<^verbatim>\<open>str\<close> or a \<^verbatim>\<open>bytes\<close> object, as the specification's contract has
  it. A string is encoded first; the hash of the bytes is encoded in URL-safe base64 and
  the result decoded to a string.
\<close>

datatype py_input = Str pystr | Bytes bytes

definition to_url_safe_base64_32_bytes :: "py_input \<Rightarrow> exn + pystr" where
  "to_url_safe_base64_32_bytes user_input =
     (case (case user_input of Str s \<Rightarrow> str_encode s | Bytes b \<Rightarrow> Inr b) of
        Inl e \<Rightarrow> Inl e
      | Inr data \<Rightarrow>
          (let hashed_input = sha256 data;
               url_safe_encoded = bytes_decode (urlsafe_b64encode hashed_input)
           in url_safe_encoded))"

section \<open>The cipher and the image library\<close>

text \<open>
  The constructor of the \<^verbatim>\<open>Fernet\<close> class decodes its key with
  \<^verbatim>\<open>base64.urlsafe_b64decode\<close> and asks for exactly 32 bytes: the first 16 are the signing
  key, the last 16 the encryption key. Any other key raises \<^verbatim>\<open>ValueError\<close>.
\<close>

record fernet =
  signing_key :: bytes
  encryption_key :: bytes

definition Fernet :: "bytes \<Rightarrow> exn + fernet" where
  "Fernet key =
     (case urlsafe_b64decode key of
        Inl e \<Rightarrow> Inl (ValueError ''Fernet key must be 32 url-safe base64-encoded bytes.'')
      | Inr k \<Rightarrow>
          (if length k \<noteq> 32
           then Inl (ValueError ''Fernet key must be 32 url-safe base64-encoded bytes.'')
           else Inr \<lparr>signing_key = take 16 k, encryption_key = drop 16 k\<rparr>))"

text \<open>
  An image carries the format tag that the image library found when it opened the file
  (\<^verbatim>\<open>image.format\<close>, which may be \<^verbatim>\<open>None\<close>) and its pixel data, of a type left open.
\<close>

record 'p image =
  format :: "string option"
  pixels :: "'p"

text \<open>
  What the repository calls and does not contain is a parameter of the model: opening and
  saving an image (\<^verbatim>\<open>Image.open\<close>, \<^verbatim>\<open>image.save\<close> into a buffer with a format argument),
  and the token operations of the cipher. \<^verbatim>\<open>Fernet.encrypt\<close> reads the clock and 16 random
  bytes; both are values of the environment. Each operation that can raise returns a sum.
\<close>

record 'p library =
  Image_open :: "bytes \<Rightarrow> exn + 'p image"
  Image_save :: "'p image \<Rightarrow> string option \<Rightarrow> exn + bytes"
  fernet_encrypt :: "fernet \<Rightarrow> nat \<Rightarrow> bytes \<Rightarrow> bytes \<Rightarrow> bytes"
  fernet_decrypt :: "fernet \<Rightarrow> bytes \<Rightarrow> exn + bytes"
  current_time :: nat
  os_urandom :: bytes

section \<open>The orchestrator: \<^verbatim>\<open>main.py\<close>\<close>

definition encrypt_image :: "'p library \<Rightarrow> 'p image \<Rightarrow> bytes \<Rightarrow> exn + bytes" where
  "encrypt_image lib img key =
     (case Fernet key of
        Inl e \<Rightarrow> Inl e
      | Inr fernet \<Rightarrow>
          (case Image_save lib img (format img) of
             Inl e \<Rightarrow> Inl e
           | Inr image_bytes \<Rightarrow>
               Inr (fernet_encrypt lib fernet (current_time lib) (os_urandom lib) image_bytes)))"

definition decrypt_image :: "'p library \<Rightarrow> bytes \<Rightarrow> bytes \<Rightarrow> exn + 'p image" where
  "decrypt_image lib encrypted_data key =
     (case Fernet key of
        Inl e \<Rightarrow> Inl e
      | Inr fernet \<Rightarrow>
          (case fernet_decrypt lib fernet encrypted_data of
             Inl e \<Rightarrow> Inl e
           | Inr decrypted_data \<Rightarrow> Image_open lib decrypted_data))"

text \<open>
  One run of \<^verbatim>\<open>main\<close> reads the widgets of the page and renders elements. The input
  widgets are the fields of \<open>ui_input\<close>: the radio button, the password field (a string,
  empty when nothing was typed) and the two file uploaders (\<^verbatim>\<open>None\<close> or the bytes of the
  file). The rendered elements are collected in a list, in the order of the calls.
\<close>

datatype action = Encrypt_an_Image | Decrypt_an_Image

record ui_input =
  option :: action
  user_input :: pystr
  uploaded_file :: "bytes option"
  encrypted_file :: "bytes option"

datatype 'p element =
    Title string
  | Sidebar_title string
  | Image_shown "'p image" string
  | Success string
  | Download_button string bytes string string
  | Error string
  | Warning string

text \<open>\<^verbatim>\<open>str.lower\<close> on the ASCII letters, which is all a format tag contains.\<close>

definition lower_char :: "char \<Rightarrow> char" where
  "lower_char c =
     (if (0x41 :: nat) \<le> of_char c \<and> of_char c \<le> (0x5A :: nat)
      then char_of (of_char c + (32 :: nat)) else c)"

definition lower :: "string \<Rightarrow> string" where
  "lower s = map lower_char s"

text \<open>
  The body of each \<^verbatim>\<open>try\<close> block returns the elements it rendered and the exception that
  ended it, if any; \<open>main\<close> then appends the \<^verbatim>\<open>st.error\<close> of the handler. The second
  component of the result of \<open>main\<close> is an exception that no handler caught: the key is
  derived and the uploaded image is opened outside the \<^verbatim>\<open>try\<close> blocks.
\<close>

definition encrypt_try :: "'p library \<Rightarrow> 'p image \<Rightarrow> pystr \<Rightarrow> 'p element list \<times> exn option" where
  "encrypt_try lib img key =
     (case str_encode key of
        Inl e \<Rightarrow> ([], Some e)
      | Inr key_bytes \<Rightarrow>
          (case encrypt_image lib img key_bytes of
             Inl e \<Rightarrow> ([], Some e)
           | Inr encrypted_data \<Rightarrow>
               ([Success ''Image Encrypted Successfully!'',
                 Download_button ''Download Encrypted Image'' encrypted_data
                   ''encrypted_image.enc'' ''application/octet-stream''], None)))"

definition decrypt_try :: "'p library \<Rightarrow> bytes \<Rightarrow> pystr \<Rightarrow> 'p element list \<times> exn option" where
  "decrypt_try lib encrypted_data key =
     (case str_encode key of
        Inl e \<Rightarrow> ([], Some e)
      | Inr key_bytes \<Rightarrow>
          (case decrypt_image lib encrypted_data key_bytes of
             Inl e \<Rightarrow> ([], Some e)
           | Inr decrypted_image \<Rightarrow>
               (let shown = [Image_shown decrypted_image ''Decrypted Image''];
                    decrypted_image_format =
                      (case format decrypted_image of
                         None \<Rightarrow> ''PNG''
                       | Some f \<Rightarrow> if f = [] then ''PNG'' else f)
                in case Image_save lib decrypted_image (Some decrypted_image_format) of
                     Inl e \<Rightarrow> (shown, Some e)
                   | Inr decrypted_image_bytes \<Rightarrow>
                       (shown @
                        [Download_button ''Download Decrypted Image'' decrypted_image_bytes
                           (''decrypted_image.'' @ lower decrypted_image_format)
                           (''image/'' @ lower decrypted_image_format)], None))))"

definition main :: "'p library \<Rightarrow> ui_input \<Rightarrow> 'p element list \<times> exn option" where
  "main lib inp =
     (let page = [Title ''Image Encryption and Decryption Using AES'', Sidebar_title ''Options'']
      in case to_url_safe_base64_32_bytes (Str (user_input inp)) of
           Inl e \<Rightarrow> (page, Some e)
         | Inr key \<Rightarrow>
             (case option inp of
                Encrypt_an_Image \<Rightarrow>
                  (case uploaded_file inp of
                     None \<Rightarrow> (page, None)
                   | Some file \<Rightarrow>
                       (case Image_open lib file of
                          Inl e \<Rightarrow> (page, Some e)
                        | Inr img \<Rightarrow>
                            (let page1 = page @ [Image_shown img ''Original Image''] in
                             if key \<noteq> [] then
                               (case encrypt_try lib img key of
                                  (shown, None) \<Rightarrow> (page1 @ shown, None)
                                | (shown, Some e) \<Rightarrow>
                                    (page1 @ shown @ [Error (''Encryption failed: '' @ exn_str e)],
                                     None))
                             else
                               (page1 @ [Warning ''Please provide a valid encryption key.''],
                                None))))
              | Decrypt_an_Image \<Rightarrow>
                  (case encrypted_file inp of
                     None \<Rightarrow>
                       (page @ [Warning
                          ''Please upload an encrypted image and provide a valid encryption key.''],
                        None)
                   | Some encrypted_data \<Rightarrow>
                       if key \<noteq> [] then
                         (case decrypt_try lib encrypted_data key of
                            (shown, None) \<Rightarrow> (page @ shown, None)
                          | (shown, Some e) \<Rightarrow>
                              (page @ shown @ [Error (''Decryption failed: '' @ exn_str e)], None))
                       else
                         (page @ [Warning
                            ''Please upload an encrypted image and provide a valid encryption key.''],
                          None))))"

section \<open>Notions used in the statements\<close>

text \<open>
  An entry of the alphabets is in order when the substitution of the encoder maps the
  standard character to the URL-safe one, the URL-safe character is ASCII and not the
  padding character, and the decoder reads it back as the index of the entry.
\<close>

definition entry_ok :: "nat \<Rightarrow> bool" where
  "entry_ok i =
     (urlsafe_encode_translation (table_b2a_base64 ! i) = urlsafe_alphabet ! i
      \<and> unat (urlsafe_alphabet ! i) < 128
      \<and> urlsafe_alphabet ! i \<noteq> BASE64_PAD
      \<and> table_a2b_base64 (urlsafe_decode_translation (urlsafe_alphabet ! i)) = Some (of_nat i)
      \<and> urlsafe_decode_translation (urlsafe_alphabet ! i) \<noteq> BASE64_PAD)"

text \<open>
  An input has a UTF-8 encoding when it is a \<^verbatim>\<open>bytes\<close> object or a string without surrogate
  code points. \<open>key_text\<close> is the key that the specification describes for the bytes of
  a passphrase, as a string; \<open>derived_fernet\<close> is the pair of keys that the cipher reads
  from it.
\<close>

fun encodable :: "py_input \<Rightarrow> bool" where
  "encodable (Str s) = list_all (\<lambda>c. \<not> is_surrogate c) s"
| "encodable (Bytes b) = True"

definition key_text :: "bytes \<Rightarrow> pystr" where
  "key_text data = map unat (spec_urlsafe_base64 (sha256 data))"

definition derived_fernet :: "bytes \<Rightarrow> fernet" where
  "derived_fernet data =
     \<lparr>signing_key = take 16 (sha256 data), encryption_key = drop 16 (sha256 data)\<rparr>"

text \<open>
  A small library on images without pixels, to run the orchestrator on concrete inputs: a
  file opens as an image unless it is empty, and its first byte says whether a format was
  detected; saving writes the format tag; a token is the 16 random bytes followed by the
  data, and a blob shorter than that is no token.
\<close>

definition sample_library :: "unit library" where
  "sample_library =
     \<lparr>Image_open = (\<lambda>b. if b = [] then Inl (LibraryError ''cannot identify image file'')
                         else Inr \<lparr>format = (if hd b = 0 then None else Some ''PNG''), pixels = ()\<rparr>),
      Image_save = (\<lambda>img fmt. case fmt of
                       None \<Rightarrow> Inl (LibraryError ''unknown file extension'')
                     | Some t \<Rightarrow> Inr (ascii t)),
      fernet_encrypt = (\<lambda>f t iv d. iv @ d),
      fernet_decrypt = (\<lambda>f d. if length d < 16 then Inl InvalidToken else Inr (drop 16 d)),
      current_time = 0,
      os_urandom = replicate 16 0\<rparr>"

section \<open>Properties of the codecs and of the hash\<close>

lemma sha256_length: "length (sha256 m) = 32"
  by (simp add: sha256_def Let_def u32_bytes_def)

lemma sextet_lt:
  fixes w :: byte
  assumes "take_bit 6 w = w"
  shows "unat w < 64"
proof -
  have "unat (take_bit 6 w) < 2 ^ 6"
    using take_bit_nat_less_exp [of 6 "unat w"] by (simp add: unsigned_take_bit_eq)
  then show ?thesis using assms by simp
qed

lemma byte_eqI:
  fixes v w :: byte
  assumes "bit v 0 = bit w 0" "bit v 1 = bit w 1" "bit v 2 = bit w 2" "bit v 3 = bit w 3"
    "bit v 4 = bit w 4" "bit v 5 = bit w 5" "bit v 6 = bit w 6" "bit v 7 = bit w 7"
  shows "v = w"
proof (rule bit_word_eqI)
  fix n assume "n < LENGTH(8)"
  then have "n \<in> {0, 1, 2, 3, 4, 5, 6, 7}" by auto
  then show "bit v n = bit w n" using assms by auto
qed

lemma bit_high [simp]: "8 \<le> n \<Longrightarrow> bit (w :: byte) n = False"
  by (auto dest: bit_imp_le_length)

lemma sextet_bounds:
  "unat (sextet1 x) < 64" "unat (sextet2 x y) < 64" "unat (sextet3 y z) < 64"
  "unat (sextet4 z) < 64"
proof -
  have m3: "(3 :: byte) = mask 2" and m15: "(15 :: byte) = mask 4" and m63: "(63 :: byte) = mask 6"
    by (simp_all add: mask_eq_exp_minus_1)
  show "unat (sextet1 x) < 64"
    unfolding sextet1_def by (rule sextet_lt, rule byte_eqI) (simp_all add: bit_simps)
  show "unat (sextet2 x y) < 64"
    unfolding sextet2_def m3 by (rule sextet_lt, rule byte_eqI) (simp_all add: bit_simps)
  show "unat (sextet3 y z) < 64"
    unfolding sextet3_def m15 by (rule sextet_lt, rule byte_eqI) (simp_all add: bit_simps)
  show "unat (sextet4 z) < 64"
    unfolding sextet4_def m63 by (rule sextet_lt, rule byte_eqI) (simp_all add: bit_simps)
qed

lemma regroup:
  "push_bit 2 (sextet1 x) OR drop_bit 4 (sextet2 x y) = x"
  "push_bit 4 (sextet2 x y AND 0x0f) OR drop_bit 2 (sextet3 y z) = y"
  "push_bit 6 (sextet3 y z AND 0x03) OR sextet4 z = z"
proof -
  have m3: "(3 :: byte) = mask 2" and m15: "(15 :: byte) = mask 4" and m63: "(63 :: byte) = mask 6"
    by (simp_all add: mask_eq_exp_minus_1)
  show "push_bit 2 (sextet1 x) OR drop_bit 4 (sextet2 x y) = x"
    unfolding sextet1_def sextet2_def m3 by (rule byte_eqI) (simp_all add: bit_simps)
  show "push_bit 4 (sextet2 x y AND 0x0f) OR drop_bit 2 (sextet3 y z) = y"
    unfolding sextet2_def sextet3_def m3 m15 by (rule byte_eqI) (simp_all add: bit_simps)
  show "push_bit 6 (sextet3 y z AND 0x03) OR sextet4 z = z"
    unfolding sextet3_def sextet4_def m3 m15 m63 by (rule byte_eqI) (simp_all add: bit_simps)
qed

lemma b2a_base64_length: "length (b2a_base64 tab bs) = 4 * ((length bs + 2) div 3)"
  by (induction tab bs rule: b2a_base64.induct) (simp_all, arith)

lemma alphabet_tables:
  "table_b2a_base64 =
     [0x41, 0x42, 0x43, 0x44, 0x45, 0x46, 0x47, 0x48, 0x49, 0x4A, 0x4B, 0x4C, 0x4D,
      0x4E, 0x4F, 0x50, 0x51, 0x52, 0x53, 0x54, 0x55, 0x56, 0x57, 0x58, 0x59, 0x5A,
      0x61, 0x62, 0x63, 0x64, 0x65, 0x66, 0x67, 0x68, 0x69, 0x6A, 0x6B, 0x6C, 0x6D,
      0x6E, 0x6F, 0x70, 0x71, 0x72, 0x73, 0x74, 0x75, 0x76, 0x77, 0x78, 0x79, 0x7A,
      0x30, 0x31, 0x32, 0x33, 0x34, 0x35, 0x36, 0x37, 0x38, 0x39, 0x2B, 0x2F]"
  "urlsafe_alphabet =
     [0x41, 0x42, 0x43, 0x44, 0x45, 0x46, 0x47, 0x48, 0x49, 0x4A, 0x4B, 0x4C, 0x4D,
      0x4E, 0x4F, 0x50, 0x51, 0x52, 0x53, 0x54, 0x55, 0x56, 0x57, 0x58, 0x59, 0x5A,
      0x61, 0x62, 0x63, 0x64, 0x65, 0x66, 0x67, 0x68, 0x69, 0x6A, 0x6B, 0x6C, 0x6D,
      0x6E, 0x6F, 0x70, 0x71, 0x72, 0x73, 0x74, 0x75, 0x76, 0x77, 0x78, 0x79, 0x7A,
      0x30, 0x31, 0x32, 0x33, 0x34, 0x35, 0x36, 0x37, 0x38, 0x39, 0x2D, 0x5F]"
  by (simp_all add: table_b2a_base64_def urlsafe_alphabet_def ascii_def)

lemma translation_eq:
  "urlsafe_encode_translation c = (if c = 43 then 45 else if c = 47 then 95 else c)"
  "urlsafe_decode_translation c = (if c = 45 then 43 else if c = 95 then 47 else c)"
  by (simp_all add: urlsafe_encode_translation_def urlsafe_decode_translation_def ascii_def)

lemma entries_ok: "list_all entry_ok [0..<64]"
  unfolding entry_ok_def alphabet_tables translation_eq table_a2b_base64_def BASE64_PAD_def
  by (simp add: upt_rec)


lemma entry_okI: "i < 64 \<Longrightarrow> entry_ok i"
  using entries_ok by (simp add: list_all_iff)

lemma groups_induct [case_names Nil One Two Three]:
  fixes bs :: bytes
  assumes "P []" and "\<And>x. P [x]" and "\<And>x y. P [x, y]"
    and "\<And>x y z rest. P rest \<Longrightarrow> P (x # y # z # rest)"
  shows "P bs"
  using assms by (induction "[] :: bytes" bs rule: b2a_base64.induct) auto

lemma pad_translation:
  "urlsafe_encode_translation BASE64_PAD = BASE64_PAD"
  "urlsafe_decode_translation BASE64_PAD = BASE64_PAD"
  by (simp_all add: translation_eq BASE64_PAD_def)

lemma urlsafe_b64encode_eq: "urlsafe_b64encode s = spec_urlsafe_base64 s"
proof -
  have tr: "urlsafe_encode_translation (table_b2a_base64 ! unat w) = urlsafe_alphabet ! unat w"
    if "unat w < 64" for w :: byte
    using entry_okI [OF that] by (simp add: entry_ok_def)
  have "map urlsafe_encode_translation (b2a_base64 table_b2a_base64 s)
          = b2a_base64 urlsafe_alphabet s"
    by (induction s rule: groups_induct) (simp_all add: tr sextet_bounds pad_translation)
  then show ?thesis
    by (simp add: urlsafe_b64encode_def spec_urlsafe_base64_def b64encode_def)
qed

lemma spec_urlsafe_base64_ascii: "list_all (\<lambda>b. unat b < 128) (spec_urlsafe_base64 s)"
proof -
  have a: "unat (urlsafe_alphabet ! unat w) < 128" if "unat w < 64" for w :: byte
    using entry_okI [OF that] by (simp add: entry_ok_def)
  have "list_all (\<lambda>b. unat b < 128) (b2a_base64 urlsafe_alphabet s)"
    by (induction s rule: groups_induct) (simp_all add: a sextet_bounds BASE64_PAD_def)
  then show ?thesis by (simp add: spec_urlsafe_base64_def)
qed

lemma a2b_step:
  fixes w :: byte
  assumes "unat w < 64"
  shows "a2b_loop q l p out (urlsafe_decode_translation (urlsafe_alphabet ! unat w) # rest) =
     (if q = 0 then a2b_loop 1 w 0 out rest
      else if q = 1 then a2b_loop 2 (w AND 0x0f) 0 (out @ [push_bit 2 l OR drop_bit 4 w]) rest
      else if q = 2 then a2b_loop 3 (w AND 0x03) 0 (out @ [push_bit 4 l OR drop_bit 2 w]) rest
      else a2b_loop 0 0 0 (out @ [push_bit 6 l OR w]) rest)"
  using entry_okI [OF assms] by (simp add: entry_ok_def)

lemma a2b_pad:
  "a2b_loop q l p out (BASE64_PAD # rest) =
     (if q \<ge> 2 \<and> q + (p + 1) \<ge> 4 then Inr out
      else a2b_loop q l (if q \<ge> 2 then p + 1 else p) out rest)"
  by simp

lemma a2b_loop_b2a:
  "a2b_loop 0 0 0 out (map urlsafe_decode_translation (b2a_base64 urlsafe_alphabet s))
     = Inr (out @ s)"
proof (induction s arbitrary: out rule: groups_induct)
  case Nil
  show ?case by simp
next
  case (One x)
  show ?case
    using regroup(1) [of x 0]
    by (simp add: a2b_step a2b_pad sextet_bounds pad_translation del: a2b_loop.simps(2))
next
  case (Two x y)
  show ?case
    using regroup(1) [of x y] regroup(2) [of x y 0]
    by (simp add: a2b_step a2b_pad sextet_bounds pad_translation del: a2b_loop.simps(2))
next
  case (Three x y z rest)
  show ?case
    using regroup(1) [of x y] regroup(2) [of x y z] regroup(3) [of y z]
    by (simp add: a2b_step sextet_bounds Three.IH del: a2b_loop.simps(2))
qed

lemma urlsafe_b64decode_encode: "urlsafe_b64decode (spec_urlsafe_base64 s) = Inr s"
  using a2b_loop_b2a [of "[]" s]
  by (simp add: urlsafe_b64decode_def a2b_base64_def spec_urlsafe_base64_def)

lemma bytes_decode_ascii:
  "list_all (\<lambda>b. unat b < 128) bs \<Longrightarrow> bytes_decode bs = Inr (map unat bs)"
  by (induction bs) (simp_all add: utf8_lead_def)

lemma str_encode_ascii:
  "list_all (\<lambda>b. unat b < 128) bs \<Longrightarrow> str_encode (map unat bs) = Inr bs"
  by (induction bs) (simp_all add: utf8_encode_cp_def)

lemma utf8_encode_cp_ok: "\<not> is_surrogate c \<Longrightarrow> \<exists>b. utf8_encode_cp c = Inr b"
  by (simp add: utf8_encode_cp_def)

lemma utf8_encode_cp_surrogate: "is_surrogate c \<Longrightarrow> utf8_encode_cp c = Inl UnicodeEncodeError"
  by (simp add: utf8_encode_cp_def is_surrogate_def)

lemma utf8_encode_cp_Inl: "utf8_encode_cp c = Inl e \<Longrightarrow> e = UnicodeEncodeError"
  by (simp add: utf8_encode_cp_def split: if_splits)

lemma str_encode_total:
  "list_all (\<lambda>c. \<not> is_surrogate c) s \<Longrightarrow> \<exists>d. str_encode s = Inr d"
proof (induction s)
  case Nil
  show ?case by simp
next
  case (Cons c cs)
  then obtain d where d: "str_encode cs = Inr d" by auto
  from Cons.prems have "\<not> is_surrogate c" by simp
  then obtain b where "utf8_encode_cp c = Inr b"
    using utf8_encode_cp_ok by blast
  with d show ?case by simp
qed

lemma str_encode_surrogate:
  "\<not> list_all (\<lambda>c. \<not> is_surrogate c) s \<Longrightarrow> str_encode s = Inl UnicodeEncodeError"
proof (induction s)
  case Nil
  then show ?case by simp
next
  case (Cons c cs)
  show ?case
  proof (cases "is_surrogate c")
    case True
    then show ?thesis by (simp add: utf8_encode_cp_surrogate)
  next
    case False
    with Cons have "str_encode cs = Inl UnicodeEncodeError" by simp
    then show ?thesis by (auto split: sum.splits dest: utf8_encode_cp_Inl)
  qed
qed

section \<open>Properties of the key derivation\<close>

lemma spec_urlsafe_base64_alphabet:
  "list_all (\<lambda>b. b \<in> set urlsafe_alphabet \<or> b = BASE64_PAD) (spec_urlsafe_base64 s)"
proof -
  have len: "length urlsafe_alphabet = 64" by (simp add: alphabet_tables)
  have a: "urlsafe_alphabet ! unat w \<in> set urlsafe_alphabet" if "unat w < 64" for w :: byte
    using that len by simp
  have "list_all (\<lambda>b. b \<in> set urlsafe_alphabet \<or> b = BASE64_PAD) (b2a_base64 urlsafe_alphabet s)"
    by (induction s rule: groups_induct) (simp_all add: a sextet_bounds)
  then show ?thesis by (simp add: spec_urlsafe_base64_def)
qed

lemma derive_Bytes: "to_url_safe_base64_32_bytes (Bytes b) = Inr (key_text b)"
  by (simp add: to_url_safe_base64_32_bytes_def key_text_def urlsafe_b64encode_eq
      bytes_decode_ascii spec_urlsafe_base64_ascii)

lemma derive_Str_Inr:
  "str_encode s = Inr data \<Longrightarrow> to_url_safe_base64_32_bytes (Str s) = Inr (key_text data)"
  by (simp add: to_url_safe_base64_32_bytes_def key_text_def urlsafe_b64encode_eq
      bytes_decode_ascii spec_urlsafe_base64_ascii)

lemma derive_Str_Inl:
  "str_encode s = Inl e \<Longrightarrow> to_url_safe_base64_32_bytes (Str s) = Inl e"
  by (simp add: to_url_safe_base64_32_bytes_def)

lemma derive_encodable:
  "encodable x \<Longrightarrow> \<exists>data. to_url_safe_base64_32_bytes x = Inr (key_text data)"
proof (cases x)
  case (Str s)
  assume "encodable x"
  with Str obtain data where "str_encode s = Inr data"
    using str_encode_total by auto
  with Str show ?thesis using derive_Str_Inr by blast
next
  case (Bytes b)
  then show ?thesis using derive_Bytes by blast
qed

lemma derive_not_encodable:
  "\<not> encodable x \<Longrightarrow> to_url_safe_base64_32_bytes x = Inl UnicodeEncodeError"
  by (cases x) (simp_all add: str_encode_surrogate derive_Str_Inl)

lemma derive_Inr:
  "to_url_safe_base64_32_bytes x = Inr key \<Longrightarrow> \<exists>data. key = key_text data"
proof (cases "encodable x")
  case True
  assume k: "to_url_safe_base64_32_bytes x = Inr key"
  from True obtain data where "to_url_safe_base64_32_bytes x = Inr (key_text data)"
    using derive_encodable by blast
  with k show ?thesis by auto
next
  case False
  assume "to_url_safe_base64_32_bytes x = Inr key"
  with False show ?thesis by (simp add: derive_not_encodable)
qed

lemma key_text_length: "length (key_text data) = 44"
  by (simp add: key_text_def spec_urlsafe_base64_def b2a_base64_length sha256_length)

lemma key_text_encode: "str_encode (key_text data) = Inr (spec_urlsafe_base64 (sha256 data))"
  by (simp add: key_text_def str_encode_ascii spec_urlsafe_base64_ascii)

lemma Fernet_derived: "Fernet (spec_urlsafe_base64 (sha256 data)) = Inr (derived_fernet data)"
  by (simp add: Fernet_def urlsafe_b64decode_encode sha256_length derived_fernet_def)

text \<open>
  The derivation is a function of its argument: the source calls the codec, the hash and
  the base64 encoder, and reads nothing else. Its result depends only on the bytes that
  are hashed.
\<close>

lemma key_depends_on_bytes_only:
  "str_encode s = Inr data \<Longrightarrow>
     to_url_safe_base64_32_bytes (Str s) = to_url_safe_base64_32_bytes (Bytes data)"
  by (simp add: derive_Str_Inr derive_Bytes)

text \<open>
  The model agrees with Python on the empty passphrase: the key is the URL-safe base64 text
  of the well-known digest of the empty message.
\<close>

lemma derive_empty_passphrase:
  "to_url_safe_base64_32_bytes (Str []) =
     Inr (map of_char ''47DEQpj8HBSa-_TImW-5JCeuQeRkm5NMpJWZG3hSuFU='')"
  by code_simp

section \<open>Properties of the orchestrator\<close>

lemma encrypt_image_derived:
  "encrypt_image lib img (spec_urlsafe_base64 (sha256 data)) =
     (case Image_save lib img (format img) of
        Inl e \<Rightarrow> Inl e
      | Inr image_bytes \<Rightarrow>
          Inr (fernet_encrypt lib (derived_fernet data) (current_time lib) (os_urandom lib)
                 image_bytes))"
  by (simp add: encrypt_image_def Fernet_derived)

lemma decrypt_image_derived:
  "decrypt_image lib blob (spec_urlsafe_base64 (sha256 data)) =
     (case fernet_decrypt lib (derived_fernet data) blob of
        Inl e \<Rightarrow> Inl e
      | Inr decrypted_data \<Rightarrow> Image_open lib decrypted_data)"
  by (simp add: decrypt_image_def Fernet_derived)


lemma key_text_nonempty: "key_text data \<noteq> []"
  using key_text_length [of data] by auto

lemma lower_PNG: "lower ''PNG'' = ''png''"
  by code_simp

lemma derived_key_nonempty:
  "to_url_safe_base64_32_bytes x = Inr key \<Longrightarrow> key \<noteq> []"
  by (auto dest!: derive_Inr simp: key_text_nonempty)

text \<open>
  The digest has 32 bytes and the passphrases are unbounded, so two different passphrases
  with the same key exist. That a token is rejected under every other passphrase can
  therefore only hold up to the collision resistance of the hash; and what the cipher and
  the image codecs do with a token and an image is not a property of this code, which takes
  both as parameters.
\<close>

lemma passphrases_with_the_same_key:
  "\<exists>n m. n \<noteq> m
     \<and> to_url_safe_base64_32_bytes (Str (replicate n 0x61))
         = to_url_safe_base64_32_bytes (Str (replicate m 0x61))"
proof -
  let ?f = "\<lambda>n. sha256 (replicate n (0x61 :: byte))"
  have "range ?f \<subseteq> {d. set d \<subseteq> UNIV \<and> length d = 32}"
    by (auto simp: sha256_length)
  moreover have "finite {d :: bytes. set d \<subseteq> UNIV \<and> length d = 32}"
    by (rule finite_lists_length_eq) simp
  ultimately have "finite (range ?f)" by (rule finite_subset)
  then have "\<not> inj ?f" using finite_imageD by fastforce
  then obtain n m where nm: "n \<noteq> m" "?f n = ?f m" by (auto simp: inj_on_def)
  have enc: "str_encode (replicate k 0x61) = Inr (replicate k 0x61)" for k
    by (induction k) (simp_all add: utf8_encode_cp_def)
  have "to_url_safe_base64_32_bytes (Str (replicate k 0x61)) = Inr (key_text (replicate k 0x61))" for k
    by (rule derive_Str_Inr [OF enc])
  then have "to_url_safe_base64_32_bytes (Str (replicate n 0x61))
         = to_url_safe_base64_32_bytes (Str (replicate m 0x61))"
    using nm(2) by (simp add: key_text_def)
  with nm(1) show ?thesis by blast
qed

text \<open>
  The encrypt action tests the derived key before it calls the cipher. A derived key is
  never empty, so the warning of that action is never rendered, whatever the inputs are.
\<close>

lemma key_warning_is_dead:
  "Warning ''Please provide a valid encryption key.'' \<notin> set (fst (main lib inp))"
proof (cases "to_url_safe_base64_32_bytes (Str (user_input inp))")
  case (Inl e)
  then show ?thesis by (simp add: main_def)
next
  case (Inr key)
  then have ne: "key \<noteq> []" by (rule derived_key_nonempty)
  show ?thesis
    using Inr ne
    by (auto simp: main_def Let_def encrypt_try_def decrypt_try_def
        split: action.splits option.splits sum.splits prod.splits)
qed

section \<open>The claims\<close>

text \<open>
  C1, as stated, fails at a string with a surrogate code point: it has no UTF-8 encoding,
  and the call raises instead of returning the text of a digest.
\<close>

theorem no_encoding_of_high_surrogate:
  "to_url_safe_base64_32_bytes (Str [0x6B, 0xDBFF, 0x79]) = Inl UnicodeEncodeError"
  by (simp add: to_url_safe_base64_32_bytes_def utf8_encode_cp_def is_surrogate_def)

text \<open>
  C1, amended. For every input string \<open>s\<close> without surrogate code points the key
  derivation returns exactly the URL-safe base64 text, in the alphabet with \<^verbatim>\<open>-\<close> and
  \<^verbatim>\<open>_\<close> and with its padding, of the SHA-256 digest of the UTF-8 encoding of \<open>s\<close>, and
  that digest has 32 bytes. The result is the string of the code points of the base64
  characters. For a string with a surrogate code point the call raises
  \<^verbatim>\<open>UnicodeEncodeError\<close>. The example is the passphrase \<^verbatim>\<open>secret\<close>.
\<close>

theorem key_of_string_is_urlsafe_base64_of_sha256:
  "(list_all (\<lambda>c. \<not> is_surrogate c) s \<longrightarrow>
      (\<exists>data. str_encode s = Inr data
         \<and> to_url_safe_base64_32_bytes (Str s)
             = Inr (map unat (spec_urlsafe_base64 (sha256 data)))
         \<and> length (sha256 data) = 32))
   \<and> (\<not> list_all (\<lambda>c. \<not> is_surrogate c) s \<longrightarrow>
        to_url_safe_base64_32_bytes (Str s) = Inl UnicodeEncodeError)"
proof (intro conjI impI)
  assume "list_all (\<lambda>c. \<not> is_surrogate c) s"
  then obtain data where d: "str_encode s = Inr data"
    using str_encode_total by blast
  then have "to_url_safe_base64_32_bytes (Str s)
               = Inr (map unat (spec_urlsafe_base64 (sha256 data)))"
    by (simp add: derive_Str_Inr key_text_def)
  with d show "\<exists>data. str_encode s = Inr data
         \<and> to_url_safe_base64_32_bytes (Str s)
             = Inr (map unat (spec_urlsafe_base64 (sha256 data)))
         \<and> length (sha256 data) = 32"
    using sha256_length by blast
next
  assume "\<not> list_all (\<lambda>c. \<not> is_surrogate c) s"
  then show "to_url_safe_base64_32_bytes (Str s) = Inl UnicodeEncodeError"
    by (simp add: str_encode_surrogate derive_Str_Inl)
qed

theorem key_of_string_is_urlsafe_base64_of_sha256_witness:
  "list_all (\<lambda>c. \<not> is_surrogate c) [0x73, 0x65, 0x63, 0x72, 0x65, 0x74]
   \<and> str_encode [0x73, 0x65, 0x63, 0x72, 0x65, 0x74] = Inr [0x73, 0x65, 0x63, 0x72, 0x65, 0x74]
   \<and> to_url_safe_base64_32_bytes (Str [0x73, 0x65, 0x63, 0x72, 0x65, 0x74]) =
       Inr (map of_char ''K7gNU3sdo-OL0wNhqoVWhr3g6s1xYv72ol_pe_Unols='')
   \<and> length (sha256 [0x73, 0x65, 0x63, 0x72, 0x65, 0x74]) = 32"
proof -
  have ok: "list_all (\<lambda>c. \<not> is_surrogate c) [0x73, 0x65, 0x63, 0x72, 0x65, 0x74]"
    by (simp add: is_surrogate_def)
  have enc: "str_encode [0x73, 0x65, 0x63, 0x72, 0x65, 0x74] = Inr [0x73, 0x65, 0x63, 0x72, 0x65, 0x74]"
    by (simp add: utf8_encode_cp_def)
  have val: "map unat (spec_urlsafe_base64 (sha256 [0x73, 0x65, 0x63, 0x72, 0x65, 0x74])) =
               map of_char ''K7gNU3sdo-OL0wNhqoVWhr3g6s1xYv72ol_pe_Unols=''"
    by code_simp
  from ok key_of_string_is_urlsafe_base64_of_sha256 [of "[0x73, 0x65, 0x63, 0x72, 0x65, 0x74]"]
  obtain data where d: "str_encode [0x73, 0x65, 0x63, 0x72, 0x65, 0x74] = Inr data"
    and k: "to_url_safe_base64_32_bytes (Str [0x73, 0x65, 0x63, 0x72, 0x65, 0x74])
             = Inr (map unat (spec_urlsafe_base64 (sha256 data)))"
    and l: "length (sha256 data) = 32"
    by blast
  from d enc have eq: "data = [0x73, 0x65, 0x63, 0x72, 0x65, 0x74]" by simp
  show ?thesis
    using ok enc k l unfolding eq by (simp only: val simp_thms)
qed

text \<open>
  C5. In the decrypt action, when the cipher rejects the uploaded blob under the derived key
  (a truncated or corrupted blob is not a valid token), the run renders exactly one error
  element carrying the message of the exception, and ends without an uncaught exception.
\<close>

theorem corrupted_blob_is_reported:
  assumes "option inp = Decrypt_an_Image"
    and "encrypted_file inp = Some blob"
    and "str_encode (user_input inp) = Inr data"
    and "fernet_decrypt lib (derived_fernet data) blob = Inl e"
  shows "main lib inp =
           ([Title ''Image Encryption and Decryption Using AES'', Sidebar_title ''Options'',
             Error (''Decryption failed: '' @ exn_str e)], None)"
  using assms
  by (simp add: main_def derive_Str_Inr key_text_nonempty decrypt_try_def key_text_encode
      decrypt_image_derived)

theorem corrupted_blob_is_reported_witness:
  "main sample_library
     \<lparr>option = Decrypt_an_Image, user_input = [], uploaded_file = None,
      encrypted_file = Some [0x67, 0x41, 0x41]\<rparr>
   = ([Title ''Image Encryption and Decryption Using AES'', Sidebar_title ''Options'',
       Error ''Decryption failed: ''], None)"
  using corrupted_blob_is_reported [of
      "\<lparr>option = Decrypt_an_Image, user_input = [], uploaded_file = None,
        encrypted_file = Some [0x67, 0x41, 0x41]\<rparr>"
      "[0x67, 0x41, 0x41]" "[]" sample_library InvalidToken]
  by (simp add: sample_library_def)

text \<open>
  C6, as stated, fails: a string with a surrogate code point has no UTF-8 encoding, and the
  derivation raises \<^verbatim>\<open>UnicodeEncodeError\<close>.
\<close>

theorem derivation_raises_on_surrogate:
  "to_url_safe_base64_32_bytes (Str [0xD800]) = Inl UnicodeEncodeError"
  by (simp add: to_url_safe_base64_32_bytes_def utf8_encode_cp_def is_surrogate_def)

text \<open>
  C6, amended. For every \<^verbatim>\<open>bytes\<close> input and every string without surrogate code points,
  the empty string included, the derivation returns a key: text over the URL-safe alphabet
  and the padding character that decodes to exactly 32 bytes. For a string with a surrogate
  code point it raises \<^verbatim>\<open>UnicodeEncodeError\<close>.
\<close>

theorem derivation_total_on_encodable_input:
  "(encodable x \<longrightarrow>
      (\<exists>key key_bytes raw.
          to_url_safe_base64_32_bytes x = Inr key
        \<and> str_encode key = Inr key_bytes
        \<and> list_all (\<lambda>b. b \<in> set urlsafe_alphabet \<or> b = BASE64_PAD) key_bytes
        \<and> urlsafe_b64decode key_bytes = Inr raw
        \<and> length raw = 32))
   \<and> (\<not> encodable x \<longrightarrow> to_url_safe_base64_32_bytes x = Inl UnicodeEncodeError)"
proof (intro conjI impI)
  assume "encodable x"
  then obtain data where "to_url_safe_base64_32_bytes x = Inr (key_text data)"
    using derive_encodable by blast
  then show "\<exists>key key_bytes raw.
          to_url_safe_base64_32_bytes x = Inr key
        \<and> str_encode key = Inr key_bytes
        \<and> list_all (\<lambda>b. b \<in> set urlsafe_alphabet \<or> b = BASE64_PAD) key_bytes
        \<and> urlsafe_b64decode key_bytes = Inr raw
        \<and> length raw = 32"
    using key_text_encode [of data] spec_urlsafe_base64_alphabet [of "sha256 data"]
      urlsafe_b64decode_encode [of "sha256 data"] sha256_length [of data]
    by blast
next
  assume "\<not> encodable x"
  then show "to_url_safe_base64_32_bytes x = Inl UnicodeEncodeError"
    by (rule derive_not_encodable)
qed

theorem derivation_total_on_encodable_input_witness:
  "encodable (Str [])
   \<and> (\<exists>key key_bytes raw.
          to_url_safe_base64_32_bytes (Str []) = Inr key
        \<and> str_encode key = Inr key_bytes
        \<and> list_all (\<lambda>b. b \<in> set urlsafe_alphabet \<or> b = BASE64_PAD) key_bytes
        \<and> urlsafe_b64decode key_bytes = Inr raw
        \<and> length raw = 32)
   \<and> \<not> encodable (Str [0x61, 0xDC00])
   \<and> to_url_safe_base64_32_bytes (Str [0x61, 0xDC00]) = Inl UnicodeEncodeError"
proof -
  have a: "encodable (Str [])" by simp
  have b: "\<not> encodable (Str [0x61, 0xDC00])" by (simp add: is_surrogate_def)
  show ?thesis
    using a b derivation_total_on_encodable_input [of "Str []"]
      derivation_total_on_encodable_input [of "Str [0x61, 0xDC00]"]
    by blast
qed

text \<open>
  C7 says that an empty key field gives a warning and no call of the cipher. At the empty
  passphrase, with an uploaded file that opens and saves, the run instead encrypts under
  the key derived from the empty string and reports success.
\<close>

theorem empty_passphrase_is_encrypted_with:
  assumes "Image_open lib file = Inr img"
    and "Image_save lib img (format img) = Inr image_bytes"
  shows "main lib \<lparr>option = Encrypt_an_Image, user_input = [], uploaded_file = Some file,
                   encrypted_file = other\<rparr> =
           ([Title ''Image Encryption and Decryption Using AES'', Sidebar_title ''Options'',
             Image_shown img ''Original Image'',
             Success ''Image Encrypted Successfully!'',
             Download_button ''Download Encrypted Image''
               (fernet_encrypt lib (derived_fernet []) (current_time lib) (os_urandom lib)
                  image_bytes)
               ''encrypted_image.enc'' ''application/octet-stream''], None)"
proof -
  have "to_url_safe_base64_32_bytes (Str []) = Inr (key_text [])"
    by (rule derive_Str_Inr) simp
  then show ?thesis
    using assms
    by (simp add: main_def key_text_nonempty encrypt_try_def key_text_encode
        encrypt_image_derived)
qed

theorem empty_passphrase_is_encrypted_with_witness:
  "Image_open sample_library [1, 2] = Inr \<lparr>format = Some ''PNG'', pixels = ()\<rparr>
   \<and> Image_save sample_library \<lparr>format = Some ''PNG'', pixels = ()\<rparr> (Some ''PNG'')
       = Inr (ascii ''PNG'')
   \<and> main sample_library \<lparr>option = Encrypt_an_Image, user_input = [],
                            uploaded_file = Some [1, 2], encrypted_file = None\<rparr> =
           ([Title ''Image Encryption and Decryption Using AES'', Sidebar_title ''Options'',
             Image_shown \<lparr>format = Some ''PNG'', pixels = ()\<rparr> ''Original Image'',
             Success ''Image Encrypted Successfully!'',
             Download_button ''Download Encrypted Image'' (replicate 16 0 @ ascii ''PNG'')
               ''encrypted_image.enc'' ''application/octet-stream''], None)"
proof -
  have a: "Image_open sample_library [1, 2] = Inr \<lparr>format = Some ''PNG'', pixels = ()\<rparr>"
    by (simp add: sample_library_def)
  have b: "Image_save sample_library \<lparr>format = Some ''PNG'', pixels = ()\<rparr>
             (format \<lparr>format = Some ''PNG'', pixels = ()\<rparr>) = Inr (ascii ''PNG'')"
    by (simp add: sample_library_def)
  have c: "fernet_encrypt sample_library f (current_time sample_library)
             (os_urandom sample_library) d = replicate 16 0 @ d" for f d
    by (simp add: sample_library_def)
  show ?thesis
    using a b empty_passphrase_is_encrypted_with [OF a b, of None]
    by (simp add: c)
qed

text \<open>
  C8. In the decrypt action, when the decrypted image reports no format, the image is saved
  with the format \<^verbatim>\<open>PNG\<close>; the download is named \<^verbatim>\<open>decrypted_image.png\<close> with the type
  \<^verbatim>\<open>image/png\<close>, and no warning is rendered. If that save raises, the handler reports it.
\<close>

theorem undetected_format_defaults_to_png:
  assumes "option inp = Decrypt_an_Image"
    and "encrypted_file inp = Some blob"
    and "str_encode (user_input inp) = Inr data"
    and "fernet_decrypt lib (derived_fernet data) blob = Inr decrypted_data"
    and "Image_open lib decrypted_data = Inr img"
    and "format img = None"
  shows "main lib inp =
           (case Image_save lib img (Some ''PNG'') of
              Inr decrypted_image_bytes \<Rightarrow>
                ([Title ''Image Encryption and Decryption Using AES'', Sidebar_title ''Options'',
                  Image_shown img ''Decrypted Image'',
                  Download_button ''Download Decrypted Image'' decrypted_image_bytes
                    ''decrypted_image.png'' ''image/png''], None)
            | Inl e \<Rightarrow>
                ([Title ''Image Encryption and Decryption Using AES'', Sidebar_title ''Options'',
                  Image_shown img ''Decrypted Image'',
                  Error (''Decryption failed: '' @ exn_str e)], None))"
  using assms
  by (simp add: main_def derive_Str_Inr key_text_nonempty decrypt_try_def key_text_encode
      decrypt_image_derived lower_PNG split: sum.splits)

theorem undetected_format_defaults_to_png_witness:
  "main sample_library
     \<lparr>option = Decrypt_an_Image, user_input = [0x70, 0x77], uploaded_file = None,
      encrypted_file = Some (replicate 16 0 @ [0, 7])\<rparr> =
     ([Title ''Image Encryption and Decryption Using AES'', Sidebar_title ''Options'',
       Image_shown \<lparr>format = None, pixels = ()\<rparr> ''Decrypted Image'',
       Download_button ''Download Decrypted Image'' (ascii ''PNG'')
         ''decrypted_image.png'' ''image/png''], None)"
proof -
  have enc: "str_encode [0x70, 0x77] = Inr [0x70, 0x77]"
    by (simp add: utf8_encode_cp_def)
  have dec: "fernet_decrypt sample_library (derived_fernet [0x70, 0x77]) (replicate 16 0 @ [0, 7])
               = Inr [0, 7]"
    by (simp add: sample_library_def)
  have opn: "Image_open sample_library [0, 7] = Inr \<lparr>format = None, pixels = ()\<rparr>"
    by (simp add: sample_library_def)
  have sav: "Image_save sample_library \<lparr>format = None, pixels = ()\<rparr> (Some ''PNG'')
               = Inr (ascii ''PNG'')"
    by (simp add: sample_library_def)
  show ?thesis
    using undetected_format_defaults_to_png [of
        "\<lparr>option = Decrypt_an_Image, user_input = [0x70, 0x77], uploaded_file = None,
          encrypted_file = Some (replicate 16 0 @ [0, 7])\<rparr>"
        "replicate 16 0 @ [0, 7]" "[0x70, 0x77]" sample_library "[0, 7]"
        "\<lparr>format = None, pixels = ()\<rparr>"] enc dec opn sav
    by simp
qed




text \<open>
  C10, as stated, fails for the same reason as C6: for a string with a surrogate code point
  no key is returned.
\<close>

theorem no_key_for_surrogate_passphrase:
  "to_url_safe_base64_32_bytes (Str [0x70, 0xDFFF]) = Inl UnicodeEncodeError"
  by (simp add: to_url_safe_base64_32_bytes_def utf8_encode_cp_def is_surrogate_def)

text \<open>
  C10, amended. For every \<^verbatim>\<open>bytes\<close> input and every string without surrogate code points,
  the empty string included, the derivation returns; and whatever it returns has exactly
  44 characters and is not empty, so the truthiness test on a derived key always succeeds.
\<close>

theorem derived_key_has_44_characters:
  "(encodable x \<longrightarrow> (\<exists>key. to_url_safe_base64_32_bytes x = Inr key))
   \<and> (\<forall>key. to_url_safe_base64_32_bytes x = Inr key \<longrightarrow> length key = 44 \<and> key \<noteq> [])"
proof (intro conjI impI allI)
  assume "encodable x"
  then show "\<exists>key. to_url_safe_base64_32_bytes x = Inr key"
    using derive_encodable by blast
next
  fix key
  assume "to_url_safe_base64_32_bytes x = Inr key"
  then obtain data where k: "key = key_text data"
    using derive_Inr by blast
  show "length key = 44" by (simp add: k key_text_length)
  show "key \<noteq> []" by (simp add: k key_text_nonempty)
qed

theorem derived_key_has_44_characters_witness:
  "encodable (Str [])
   \<and> (\<exists>key. to_url_safe_base64_32_bytes (Str []) = Inr key \<and> length key = 44 \<and> key \<noteq> [])"
proof -
  have a: "encodable (Str [])" by simp
  show ?thesis
    using a derived_key_has_44_characters [of "Str []"] by blast
qed

end
